theory Spec2Isabelle
  imports Complex_Main "HOL-Library.Sublist"
begin

section \<open>LangGraph basics shared by the notebooks\<close>

text \<open>
  The notebooks wire their control flow with LangGraph: nodes are named by strings,
  \<^verbatim>\<open>add_edge(a, b)\<close> records a fixed successor, and
  \<^verbatim>\<open>add_conditional_edges(a, router, path_map)\<close> runs \<open>router\<close> on the state after
  node \<open>a\<close> and looks its result up in \<open>path_map\<close>. \<open>START\<close> and \<open>END\<close> are the
  library's two reserved node names.
\<close>

definition START :: string where
  "START = ''__start__''"

definition END :: string where
  "END = ''__end__''"

text \<open>A retrieved document (\<^verbatim>\<open>langchain.schema.Document\<close>): its text and its metadata.\<close>

record document =
  page_content :: string
  metadata :: "(string \<times> string) list"

section \<open>Self-RAG (graders are LLM chains)\<close>

text \<open>
  \<^verbatim>\<open>class GraphState(TypedDict)\<close> with the keys question, generation and documents.
  A node returns a dict holding only the keys it writes; LangGraph overwrites exactly
  those channels of the state.
\<close>

record GraphState =
  question :: string
  generation :: string
  documents :: "document list"

record GraphUpdate =
  question_upd :: "string option"
  generation_upd :: "string option"
  documents_upd :: "document list option"

definition no_update :: GraphUpdate where
  "no_update = \<lparr>question_upd = None, generation_upd = None, documents_upd = None\<rparr>"

definition apply_update :: "GraphState \<Rightarrow> GraphUpdate \<Rightarrow> GraphState" where
  "apply_update s u =
     \<lparr>question = (case question_upd u of None \<Rightarrow> question s | Some q \<Rightarrow> q),
      generation = (case generation_upd u of None \<Rightarrow> generation s | Some g \<Rightarrow> g),
      documents = (case documents_upd u of None \<Rightarrow> documents s | Some ds \<Rightarrow> ds)\<rparr>"

text \<open>
  Every chain of the notebook ends in a call of the chat model or of the retriever. A call
  is logged with its arguments; what a chain answers may depend on everything that was
  called before it (the model is not a function of its prompt), so each chain receives the
  calls so far. The graders answer with the \<open>binary_score\<close> field of their structured
  output, which is declared \<open>str\<close>.
\<close>

datatype call =
    Pdf_retriever string
  | Rag_chain "document list" string
  | Retrieval_grader string string
  | Groundedness_grader "document list" string
  | Answer_grader string string
  | Question_rewriter string

record chains =
  pdf_retriever :: "call list \<Rightarrow> string \<Rightarrow> document list"
  rag_chain :: "call list \<Rightarrow> document list \<Rightarrow> string \<Rightarrow> string"
  retrieval_grader :: "call list \<Rightarrow> string \<Rightarrow> string \<Rightarrow> string"
  groundedness_grader :: "call list \<Rightarrow> document list \<Rightarrow> string \<Rightarrow> string"
  answer_grader :: "call list \<Rightarrow> string \<Rightarrow> string \<Rightarrow> string"
  question_rewriter :: "call list \<Rightarrow> string \<Rightarrow> string"

definition retrieve :: "chains \<Rightarrow> GraphState \<Rightarrow> call list \<Rightarrow> GraphUpdate \<times> call list" where
  "retrieve env state calls =
     (let question = question state;
          documents = pdf_retriever env calls question
      in (no_update\<lparr>documents_upd := Some documents\<rparr>, calls @ [Pdf_retriever question]))"

definition generate :: "chains \<Rightarrow> GraphState \<Rightarrow> call list \<Rightarrow> GraphUpdate \<times> call list" where
  "generate env state calls =
     (let question = question state;
          documents = documents state;
          generation = rag_chain env calls documents question
      in (no_update\<lparr>generation_upd := Some generation\<rparr>, calls @ [Rag_chain documents question]))"

text \<open>
  The loop of \<open>grade_documents\<close>: one grader call for each document, in order. The
  accumulator holds \<open>filtered_docs\<close>, \<open>relevant_doc_count\<close> and the calls. The same
  loop body occurs in every variant of the notebook, with \<open>retrieval_grader.invoke\<close> or
  \<open>document_evaluator\<close> as the grader, so the grader is an argument here.
\<close>

fun grade_loop ::
  "(call list \<Rightarrow> string \<Rightarrow> string \<Rightarrow> string) \<Rightarrow> string \<Rightarrow> document list
     \<Rightarrow> document list \<times> nat \<times> call list \<Rightarrow> document list \<times> nat \<times> call list" where
  "grade_loop grader q [] acc = acc"
| "grade_loop grader q (d # ds) (filtered_docs, relevant_doc_count, calls) =
     (let grade = grader calls q (page_content d);
          calls' = calls @ [Retrieval_grader q (page_content d)]
      in if grade = ''yes''
         then grade_loop grader q ds (filtered_docs @ [d], relevant_doc_count + 1, calls')
         else grade_loop grader q ds (filtered_docs, relevant_doc_count, calls'))"

definition grade_documents :: "chains \<Rightarrow> GraphState \<Rightarrow> call list \<Rightarrow> GraphUpdate \<times> call list" where
  "grade_documents env state calls =
     (let question = question state;
          documents = documents state
      in case grade_loop (retrieval_grader env) question documents ([], 0, calls) of
           (filtered_docs, relevant_doc_count, calls') \<Rightarrow>
             (no_update\<lparr>documents_upd := Some filtered_docs\<rparr>, calls'))"

text \<open>
  The grades the loop receives, in order: the answer to the call for each document, given
  the calls made before it. This is the sequence the statements about the loop speak of.
\<close>

fun grades ::
  "(call list \<Rightarrow> string \<Rightarrow> string \<Rightarrow> string) \<Rightarrow> string \<Rightarrow> document list \<Rightarrow> call list
     \<Rightarrow> string list" where
  "grades grader q [] calls = []"
| "grades grader q (d # ds) calls =
     grader calls q (page_content d)
       # grades grader q ds (calls @ [Retrieval_grader q (page_content d)])"

definition graded_yes :: "document list \<Rightarrow> string list \<Rightarrow> document list" where
  "graded_yes ds gs = map fst (filter (\<lambda>(d, g). g = ''yes'') (zip ds gs))"

definition rewrite_query :: "chains \<Rightarrow> GraphState \<Rightarrow> call list \<Rightarrow> GraphUpdate \<times> call list" where
  "rewrite_query env state calls =
     (let question = question state;
          better_question = question_rewriter env calls question
      in (no_update\<lparr>question_upd := Some better_question\<rparr>, calls @ [Question_rewriter question]))"

text \<open>The two routers. \<^verbatim>\<open>not filtered_documents\<close> is true of the empty list only.\<close>

definition decide_to_generate :: "GraphState \<Rightarrow> string" where
  "decide_to_generate state =
     (let filtered_documents = documents state
      in if filtered_documents = [] then ''rewrite_query'' else ''generate'')"

definition grade_generation_v_documents_and_question ::
  "chains \<Rightarrow> GraphState \<Rightarrow> call list \<Rightarrow> string \<times> call list" where
  "grade_generation_v_documents_and_question env state calls =
     (let question = question state;
          documents = documents state;
          generation = generation state;
          grade = groundedness_grader env calls documents generation;
          calls1 = calls @ [Groundedness_grader documents generation]
      in if grade = ''yes''
         then (let grade = answer_grader env calls1 question generation;
                   calls2 = calls1 @ [Answer_grader question generation]
               in if grade = ''yes'' then (''relevant'', calls2) else (''not relevant'', calls2))
         else (''hallucination'', calls1))"

text \<open>The wiring of the Self-RAG workflow.\<close>

definition self_rag_edges :: "(string \<times> string) list" where
  "self_rag_edges =
     [(START, ''retrieve''),
      (''retrieve'', ''grade_documents''),
      (''rewrite_query'', ''retrieve'')]"

definition grade_documents_path_map :: "(string \<times> string) list" where
  "grade_documents_path_map =
     [(''rewrite_query'', ''rewrite_query''),
      (''generate'', ''generate'')]"

definition generate_path_map :: "(string \<times> string) list" where
  "generate_path_map =
     [(''hallucination'', ''generate''),
      (''relevant'', END),
      (''not relevant'', ''rewrite_query'')]"

text \<open>
  One superstep of the compiled workflow: run the node that is due, merge what it returns
  into the state, then follow the node's edge. A node without a successor (only \<open>END\<close>
  here) and a router result missing from its path map give \<open>None\<close>.
\<close>

definition self_rag_step ::
  "chains \<Rightarrow> string \<times> GraphState \<times> call list \<Rightarrow> (string \<times> GraphState \<times> call list) option" where
  "self_rag_step env cfg =
     (case cfg of (node, state, calls) \<Rightarrow>
        if node = ''grade_documents'' then
          (case grade_documents env state calls of (u, calls') \<Rightarrow>
             let state' = apply_update state u
             in map_option (\<lambda>n. (n, state', calls'))
                  (map_of grade_documents_path_map (decide_to_generate state')))
        else if node = ''generate'' then
          (case generate env state calls of (u, calls') \<Rightarrow>
             let state' = apply_update state u
             in case grade_generation_v_documents_and_question env state' calls' of
                  (route, calls'') \<Rightarrow>
                    map_option (\<lambda>n. (n, state', calls'')) (map_of generate_path_map route))
        else if node = ''retrieve'' then
          (case retrieve env state calls of (u, calls') \<Rightarrow>
             map_option (\<lambda>n. (n, apply_update state u, calls')) (map_of self_rag_edges node))
        else if node = ''rewrite_query'' then
          (case rewrite_query env state calls of (u, calls') \<Rightarrow>
             map_option (\<lambda>n. (n, apply_update state u, calls')) (map_of self_rag_edges node))
        else if node = START then
          map_option (\<lambda>n. (n, state, calls)) (map_of self_rag_edges node)
        else None)"

text \<open>Running the workflow for a number of supersteps from a configuration.\<close>

fun self_rag_run ::
  "chains \<Rightarrow> nat \<Rightarrow> string \<times> GraphState \<times> call list \<Rightarrow> (string \<times> GraphState \<times> call list) option" where
  "self_rag_run env 0 cfg = Some cfg"
| "self_rag_run env (Suc n) cfg =
     (case self_rag_step env cfg of None \<Rightarrow> None | Some cfg' \<Rightarrow> self_rag_run env n cfg')"

text \<open>
  What the router answers once the \<open>generate\<close> node has run on \<open>state\<close>: the node writes
  the generation, then the router grades it.
\<close>

definition generate_route :: "chains \<Rightarrow> GraphState \<Rightarrow> call list \<Rightarrow> string" where
  "generate_route env state calls =
     fst (grade_generation_v_documents_and_question env
            (apply_update state (fst (generate env state calls)))
            (snd (generate env state calls)))"

section \<open>Self-RAG with the Azure AI Evaluation SDK\<close>

text \<open>
  The evaluators of the SDK answer with a dict; the notebook reads one numeric entry of it
  and compares it with 4. The score is a Python float: a number or NaN, and every
  comparison with NaN is false. A subscript of a dict raises \<open>KeyError\<close> on a missing
  key, a subscript of a list raises \<open>IndexError\<close> out of range, and a structured output
  that does not fit its declared type raises a validation error; the argument of an error
  names the key, the subscript expression or the rejected value.
\<close>

datatype pyfloat = Finite rat | NaN

fun ge :: "pyfloat \<Rightarrow> rat \<Rightarrow> bool" where
  "ge (Finite x) k = (k \<le> x)"
| "ge NaN k = False"

fun lt :: "pyfloat \<Rightarrow> rat \<Rightarrow> bool" where
  "lt (Finite x) k = (x < k)"
| "lt NaN k = False"

datatype py_error = KeyError string | IndexError string | ValidationError string

type_synonym eval_result = "string \<rightharpoonup> pyfloat"

text \<open>
  The two wrappers construct the SDK's evaluator, call it with the two keyword arguments
  and return what it answers. The evaluator class is the first argument.
\<close>

definition get_groundedness_score :: "('c \<Rightarrow> string \<Rightarrow> 'r) \<Rightarrow> 'c \<Rightarrow> string \<Rightarrow> 'r" where
  "get_groundedness_score GroundednessEvaluator context response =
     (let groundedness_eval = GroundednessEvaluator;
          groundedness_score = groundedness_eval context response
      in groundedness_score)"

definition get_answer_relevace_score :: "('q \<Rightarrow> string \<Rightarrow> 'r) \<Rightarrow> 'q \<Rightarrow> string \<Rightarrow> 'r" where
  "get_answer_relevace_score RelevanceEvaluator query response =
     (let relevance_eval = RelevanceEvaluator;
          relevance_score = relevance_eval query response
      in relevance_score)"

definition grade_generation_v_documents_and_question_azure ::
  "(document list \<Rightarrow> string \<Rightarrow> eval_result) \<Rightarrow> (string \<Rightarrow> string \<Rightarrow> eval_result)
     \<Rightarrow> GraphState \<Rightarrow> py_error + string" where
  "grade_generation_v_documents_and_question_azure GroundednessEvaluator RelevanceEvaluator state =
     (let question = question state;
          documents = documents state;
          generation = generation state;
          groundedness_score = get_groundedness_score GroundednessEvaluator documents generation
      in case groundedness_score ''groundedness'' of
           None \<Rightarrow> Inl (KeyError ''groundedness'')
         | Some grade \<Rightarrow>
             if ge grade 4
             then (let relevance_score =
                         get_answer_relevace_score RelevanceEvaluator question generation
                   in case relevance_score ''relevance'' of
                        None \<Rightarrow> Inl (KeyError ''relevance'')
                      | Some grade \<Rightarrow>
                          if ge grade 4 then Inr ''relevant'' else Inr ''not relevant'')
             else Inr ''hallucination'')"

text \<open>
  The workflow cell of this variant wires the graph exactly as the first one does, so
  \<open>generate_path_map\<close> is its path map too. The node that runs after \<open>generate\<close>:
\<close>

definition after_generate_azure ::
  "(document list \<Rightarrow> string \<Rightarrow> eval_result) \<Rightarrow> (string \<Rightarrow> string \<Rightarrow> eval_result)
     \<Rightarrow> GraphState \<Rightarrow> py_error + string" where
  "after_generate_azure GroundednessEvaluator RelevanceEvaluator state =
     (case grade_generation_v_documents_and_question_azure
             GroundednessEvaluator RelevanceEvaluator state of
        Inl e \<Rightarrow> Inl e
      | Inr route \<Rightarrow>
          (case map_of generate_path_map route of
             None \<Rightarrow> Inl (KeyError route)
           | Some node \<Rightarrow> Inr node))"

section \<open>Corrective RAG\<close>

text \<open>The state has a fourth key, \<open>web_search\<close>.\<close>

record CragState = GraphState +
  web_search :: string

record CragUpdate = GraphUpdate +
  web_search_upd :: "string option"

definition apply_update_crag :: "CragState \<Rightarrow> CragUpdate \<Rightarrow> CragState" where
  "apply_update_crag s u =
     \<lparr>question = (case question_upd u of None \<Rightarrow> question s | Some q \<Rightarrow> q),
      generation = (case generation_upd u of None \<Rightarrow> generation s | Some g \<Rightarrow> g),
      documents = (case documents_upd u of None \<Rightarrow> documents s | Some ds \<Rightarrow> ds),
      web_search = (case web_search_upd u of None \<Rightarrow> web_search s | Some w \<Rightarrow> w)\<rparr>"

text \<open>
  \<open>GradeDocumentsEvaluator.__call__\<close> builds the grading chain from its own prompt and
  invokes it once.
\<close>

definition document_evaluator :: "chains \<Rightarrow> call list \<Rightarrow> string \<Rightarrow> string \<Rightarrow> string" where
  "document_evaluator env calls q document =
     (let results = retrieval_grader env calls q document in results)"

definition grade_documents_crag ::
  "chains \<Rightarrow> CragState \<Rightarrow> call list \<Rightarrow> CragUpdate \<times> call list" where
  "grade_documents_crag env state calls =
     (let question = question state;
          documents = documents state
      in case grade_loop (document_evaluator env) question documents ([], 0, calls) of
           (filtered_docs, relevant_doc_count, calls') \<Rightarrow>
             (let web_search = (if relevant_doc_count = 0 then ''Yes'' else ''No'')
              in (\<lparr>question_upd = None, generation_upd = None,
                   documents_upd = Some filtered_docs, web_search_upd = Some web_search\<rparr>,
                  calls')))"

definition decide_to_generate_crag :: "CragState \<Rightarrow> string" where
  "decide_to_generate_crag state =
     (let web_search = web_search state
      in if web_search = ''Yes'' then ''rewrite_query'' else ''generate'')"

definition crag_edges :: "(string \<times> string) list" where
  "crag_edges =
     [(START, ''retrieve''),
      (''retrieve'', ''grade_documents''),
      (''rewrite_query'', ''web_search_node''),
      (''web_search_node'', ''generate''),
      (''generate'', END)]"

text \<open>
  The node that follows \<open>node\<close> once it has run and left the state \<open>state\<close>. The path map
  of \<open>grade_documents\<close> is the one of the Self-RAG workflow.
\<close>

definition crag_next :: "string \<Rightarrow> CragState \<Rightarrow> string option" where
  "crag_next node state =
     (if node = ''grade_documents''
      then map_of grade_documents_path_map (decide_to_generate_crag state)
      else map_of crag_edges node)"

section \<open>Multi-agent supervisor\<close>

text \<open>
  A chat message: who wrote it, its text and the optional \<open>name\<close> attribute.
  \<open>HumanMessage(content=..., name=...)\<close> builds a message of the human role.
\<close>

record message =
  role :: string
  content :: string
  name :: "string option"

definition HumanMessage :: "string \<Rightarrow> string \<Rightarrow> message" where
  "HumanMessage c n = \<lparr>role = ''human'', content = c, name = Some n\<rparr>"

text \<open>
  \<open>AgentState\<close>: \<open>messages\<close> is reduced with \<open>operator.add\<close> (what a node returns is
  appended), the key \<open>next\<close> is overwritten. The field is called \<open>nxt\<close> here.
\<close>

record AgentState =
  messages :: "message list"
  nxt :: string

record AgentUpdate =
  messages_upd :: "message list option"
  nxt_upd :: "string option"

definition apply_agent_update :: "AgentState \<Rightarrow> AgentUpdate \<Rightarrow> AgentState" where
  "apply_agent_update s u =
     \<lparr>messages = messages s @ (case messages_upd u of None \<Rightarrow> [] | Some ms \<Rightarrow> ms),
      nxt = (case nxt_upd u of None \<Rightarrow> nxt s | Some n \<Rightarrow> n)\<rparr>"

definition members :: "string list" where
  "members = [''Researcher'', ''Coder'']"

definition options_for_next :: "string list" where
  "options_for_next = [''FINISH''] @ members"

text \<open>
  \<open>class RouteResponse(BaseModel)\<close> with the one field \<open>next: Literal[*options_for_next]\<close>:
  building it from a value validates the value against the literals.
\<close>

record RouteResponse =
  route_next :: string

definition validate_RouteResponse :: "string \<Rightarrow> py_error + RouteResponse" where
  "validate_RouteResponse v =
     (if v \<in> set options_for_next then Inr \<lparr>route_next = v\<rparr> else Inl (ValidationError v))"

text \<open>
  The three language-model parts of the graph: what the supervisor's model chooses for
  \<open>next\<close>, and the messages with which each member agent answers a state.
\<close>

record agents =
  supervisor_llm :: "AgentState \<Rightarrow> string"
  research_agent :: "AgentState \<Rightarrow> message list"
  coder_agent :: "AgentState \<Rightarrow> message list"

definition supervisor_agent :: "agents \<Rightarrow> AgentState \<Rightarrow> py_error + RouteResponse" where
  "supervisor_agent env state = validate_RouteResponse (supervisor_llm env state)"

definition agent_node ::
  "AgentState \<Rightarrow> (AgentState \<Rightarrow> message list) \<Rightarrow> string \<Rightarrow> py_error + AgentUpdate" where
  "agent_node state agent nm =
     (let agent_response = agent state
      in if agent_response = [] then Inl (IndexError ''messages[-1]'')
         else Inr \<lparr>messages_upd = Some [HumanMessage (content (last agent_response)) nm],
                   nxt_upd = Some ''Supervisor''\<rparr>)"

definition research_node :: "agents \<Rightarrow> AgentState \<Rightarrow> py_error + AgentUpdate" where
  "research_node env state = agent_node state (research_agent env) ''Researcher''"

definition coder_node :: "agents \<Rightarrow> AgentState \<Rightarrow> py_error + AgentUpdate" where
  "coder_node env state = agent_node state (coder_agent env) ''Coder''"

definition get_next :: "AgentState \<Rightarrow> string" where
  "get_next state = nxt state"

definition conditional_map :: "(string \<times> string) list" where
  "conditional_map = map (\<lambda>k. (k, k)) members @ [(''FINISH'', END)]"

definition supervisor_edges :: "(string \<times> string) list" where
  "supervisor_edges = (START, ''Supervisor'') # map (\<lambda>member. (member, ''Supervisor'')) members"

definition follow :: "(string \<times> string) list \<Rightarrow> string \<Rightarrow> py_error + string" where
  "follow table key = (case map_of table key of None \<Rightarrow> Inl (KeyError key) | Some node \<Rightarrow> Inr node)"

definition supervisor_step ::
  "agents \<Rightarrow> string \<times> AgentState \<Rightarrow> py_error + string \<times> AgentState" where
  "supervisor_step env cfg =
     (case cfg of (node, state) \<Rightarrow>
        if node = ''Supervisor'' then
          (case supervisor_agent env state of
             Inl e \<Rightarrow> Inl e
           | Inr r \<Rightarrow>
               let state' = apply_agent_update state
                              \<lparr>messages_upd = None, nxt_upd = Some (route_next r)\<rparr>
               in map_sum id (\<lambda>n. (n, state')) (follow conditional_map (get_next state')))
        else if node = ''Researcher'' then
          (case research_node env state of
             Inl e \<Rightarrow> Inl e
           | Inr u \<Rightarrow>
               map_sum id (\<lambda>n. (n, apply_agent_update state u)) (follow supervisor_edges node))
        else if node = ''Coder'' then
          (case coder_node env state of
             Inl e \<Rightarrow> Inl e
           | Inr u \<Rightarrow>
               map_sum id (\<lambda>n. (n, apply_agent_update state u)) (follow supervisor_edges node))
        else map_sum id (\<lambda>n. (n, state)) (follow supervisor_edges node))"

section \<open>Plan-and-Execute\<close>

text \<open>
  \<open>PlanExecute\<close>: \<open>past_steps\<close> is reduced with \<open>operator.add\<close>; the key \<open>response\<close> is
  absent (\<open>None\<close>) until a node writes it, which \<open>should_end\<close> tests with
  \<^verbatim>\<open>"response" in state\<close>.
\<close>

record PlanExecute =
  input :: string
  plan :: "string list"
  past_steps :: "(string \<times> string) list"
  response :: "string option"

record PlanUpdate =
  plan_upd :: "string list option"
  past_steps_upd :: "(string \<times> string) list option"
  response_upd :: "string option"

definition no_plan_update :: PlanUpdate where
  "no_plan_update = \<lparr>plan_upd = None, past_steps_upd = None, response_upd = None\<rparr>"

definition apply_plan_update :: "PlanExecute \<Rightarrow> PlanUpdate \<Rightarrow> PlanExecute" where
  "apply_plan_update s u =
     \<lparr>input = input s,
      plan = (case plan_upd u of None \<Rightarrow> plan s | Some p \<Rightarrow> p),
      past_steps = past_steps s @ (case past_steps_upd u of None \<Rightarrow> [] | Some ps \<Rightarrow> ps),
      response = (case response_upd u of None \<Rightarrow> response s | Some r \<Rightarrow> Some r)\<rparr>"

text \<open>The replanner's structured output \<open>Act.action: Union[Response, Plan]\<close>.\<close>

datatype action = Response string | Plan "string list"

record plan_chains =
  planner :: "string \<Rightarrow> string list"
  agent_executor :: "string \<Rightarrow> message list"
  replanner :: "PlanExecute \<Rightarrow> action"
  final_report :: "string \<Rightarrow> string \<Rightarrow> string"

text \<open>Python's \<open>str\<close> of a natural number and \<open>sep.join\<close>.\<close>

fun str_nat :: "nat \<Rightarrow> string" where
  "str_nat n =
     (if n < 10 then [''0123456789'' ! n]
      else str_nat (n div 10) @ [''0123456789'' ! (n mod 10)])"

fun join :: "string \<Rightarrow> string list \<Rightarrow> string" where
  "join sep [] = []"
| "join sep [x] = x"
| "join sep (x # y # ys) = x @ sep @ join sep (y # ys)"

definition plan_step :: "plan_chains \<Rightarrow> PlanExecute \<Rightarrow> PlanUpdate" where
  "plan_step env state =
     (let steps = planner env (input state)
      in no_plan_update\<lparr>plan_upd := Some steps\<rparr>)"

definition execute_step :: "plan_chains \<Rightarrow> PlanExecute \<Rightarrow> py_error + PlanUpdate" where
  "execute_step env state =
     (let plan = plan state;
          plan_str = join ''\<newline>'' (map (\<lambda>(i, step). str_nat (i + 1) @ ''. '' @ step) (enumerate 0 plan))
      in case plan of
           [] \<Rightarrow> Inl (IndexError ''plan[0]'')
         | task # _ \<Rightarrow>
             (let task_formatted =
                    ''For the following plan:\<newline>'' @ plan_str
                      @ ''\<newline>\<newline>You are tasked with executing [step 1. '' @ task @ ''].'';
                  agent_response = agent_executor env task_formatted
              in if agent_response = [] then Inl (IndexError ''messages[-1]'')
                 else Inr (no_plan_update
                             \<lparr>past_steps_upd := Some [(task, content (last agent_response))]\<rparr>)))"

definition replan_step :: "plan_chains \<Rightarrow> PlanExecute \<Rightarrow> PlanUpdate" where
  "replan_step env state =
     (let output = replanner env state
      in case output of
           Response r \<Rightarrow> no_plan_update\<lparr>response_upd := Some r\<rparr>
         | Plan next_plan \<Rightarrow>
             if length next_plan = 0
             then no_plan_update\<lparr>response_upd := Some ''No more steps needed.''\<rparr>
             else no_plan_update\<lparr>plan_upd := Some next_plan\<rparr>)"

text \<open>A string is true in a condition when it is not empty.\<close>

definition should_end :: "PlanExecute \<Rightarrow> string" where
  "should_end state =
     (if (case response state of None \<Rightarrow> False | Some r \<Rightarrow> r \<noteq> [])
      then ''final_report'' else ''execute'')"

definition generate_final_report :: "plan_chains \<Rightarrow> PlanExecute \<Rightarrow> PlanUpdate" where
  "generate_final_report env state =
     (let past =
            join ''\<newline>\<newline>''
              (map (\<lambda>past_step. ''Question: '' @ fst past_step @ ''\<newline>\<newline>Answer: ''
                                   @ snd past_step @ ''\<newline>\<newline>####'')
                 (past_steps state));
          r = final_report env (input state) past
      in no_plan_update\<lparr>response_upd := Some r\<rparr>)"

definition plan_execute_edges :: "(string \<times> string) list" where
  "plan_execute_edges =
     [(START, ''planner''),
      (''planner'', ''execute''),
      (''execute'', ''replan''),
      (''final_report'', END)]"

definition replan_path_map :: "(string \<times> string) list" where
  "replan_path_map = [(''execute'', ''execute''), (''final_report'', ''final_report'')]"

definition plan_execute_step ::
  "plan_chains \<Rightarrow> string \<times> PlanExecute \<Rightarrow> py_error + string \<times> PlanExecute" where
  "plan_execute_step env cfg =
     (case cfg of (node, state) \<Rightarrow>
        if node = ''planner'' then
          map_sum id (\<lambda>n. (n, apply_plan_update state (plan_step env state)))
            (follow plan_execute_edges node)
        else if node = ''execute'' then
          (case execute_step env state of
             Inl e \<Rightarrow> Inl e
           | Inr u \<Rightarrow>
               map_sum id (\<lambda>n. (n, apply_plan_update state u)) (follow plan_execute_edges node))
        else if node = ''replan'' then
          (let state' = apply_plan_update state (replan_step env state)
           in map_sum id (\<lambda>n. (n, state')) (follow replan_path_map (should_end state')))
        else if node = ''final_report'' then
          map_sum id (\<lambda>n. (n, apply_plan_update state (generate_final_report env state)))
            (follow plan_execute_edges node)
        else map_sum id (\<lambda>n. (n, state)) (follow plan_execute_edges node))"

fun plan_execute_run ::
  "plan_chains \<Rightarrow> nat \<Rightarrow> string \<times> PlanExecute \<Rightarrow> py_error + string \<times> PlanExecute" where
  "plan_execute_run env 0 cfg = Inr cfg"
| "plan_execute_run env (Suc n) cfg =
     (case plan_execute_step env cfg of Inl e \<Rightarrow> Inl e | Inr cfg' \<Rightarrow> plan_execute_run env n cfg')"

section \<open>Monitoring a cloud evaluation\<close>

text \<open>
  \<open>monitor_status\<close> polls \<open>project_client.evaluations.get(id).status\<close>. The service is
  the function \<open>get\<close>: the status that the \<open>k\<close>-th request (counted from 0) answers.

  The progress bar is tqdm's: \<open>tqdm(total=3, ...)\<close> starts with \<open>n = 0\<close>, and whether the
  bar is disabled is decided outside the function (the constructor's default, which the
  environment variable \<open>TQDM_DISABLE\<close> overrides). \<open>update(k)\<close> returns at once on a
  disabled bar and adds \<open>k\<close> to \<open>n\<close> otherwise.
\<close>

record tqdm =
  bar_n :: int
  disable :: bool

definition tqdm_init :: "bool \<Rightarrow> tqdm" where
  "tqdm_init d = \<lparr>bar_n = 0, disable = d\<rparr>"

definition update :: "int \<Rightarrow> tqdm \<Rightarrow> tqdm" where
  "update k pbar = (if disable pbar then pbar else pbar\<lparr>bar_n := bar_n pbar + k\<rparr>)"

text \<open>
  Neither loop of the function need end, so both live in the option monad. The arguments
  of the polling loop are the number of requests made so far, the bar and the last status.
  The time slept between two requests is not modelled.
\<close>

partial_function (option) poll ::
  "(nat \<Rightarrow> string) \<Rightarrow> nat \<Rightarrow> tqdm \<Rightarrow> string \<Rightarrow> (tqdm \<times> nat) option" where
  "poll get k pbar status =
     (if status \<noteq> ''Completed'' \<and> status \<noteq> ''Failed''
      then poll get (k + 1)
             (if status = ''Running'' \<and> bar_n pbar < 2 then update 1 pbar else pbar) (get k)
      else Some (pbar, k))"

partial_function (option) fill :: "tqdm \<Rightarrow> tqdm option" where
  "fill pbar = (if bar_n pbar < 3 then fill (update 1 pbar) else Some pbar)"

text \<open>
  The result is the final \<open>pbar.n\<close> and the number of requests that were made; \<open>None\<close>
  when the function does not return.
\<close>

definition monitor_status :: "bool \<Rightarrow> (nat \<Rightarrow> string) \<Rightarrow> (int \<times> nat) option" where
  "monitor_status disabled get =
     (let pbar = tqdm_init disabled;
          status = get 0;
          pbar = (if status = ''Queued'' then update 1 pbar else pbar)
      in case poll get 1 pbar status of
           None \<Rightarrow> None
         | Some (pbar', k) \<Rightarrow>
             (case fill pbar' of None \<Rightarrow> None | Some pbar'' \<Rightarrow> Some (bar_n pbar'', k)))"

definition terminal :: "string \<Rightarrow> bool" where
  "terminal status = (status = ''Completed'' \<or> status = ''Failed'')"

section \<open>Concrete instances\<close>

text \<open>
  Small instances on which the statements below are exercised: chains whose graders accept
  the answer \<open>a\<close> and every document, a supervisor that picks the coder, and a planner
  with a two-step plan whose replanner first shortens the plan and then responds.
\<close>

definition example_document :: document where
  "example_document = \<lparr>page_content = ''d'', metadata = []\<rparr>"

definition example_chains :: chains where
  "example_chains =
     \<lparr>pdf_retriever = (\<lambda>calls q. [example_document]),
      rag_chain = (\<lambda>calls ds q. ''a''),
      retrieval_grader = (\<lambda>calls q d. ''yes''),
      groundedness_grader = (\<lambda>calls ds g. if g = ''a'' then ''yes'' else ''no''),
      answer_grader = (\<lambda>calls q g. if g = ''a'' then ''yes'' else ''no''),
      question_rewriter = (\<lambda>calls q. q)\<rparr>"

definition example_state :: GraphState where
  "example_state = \<lparr>question = ''q'', generation = [], documents = []\<rparr>"

definition example_agents :: agents where
  "example_agents =
     \<lparr>supervisor_llm = (\<lambda>s. ''Coder''),
      research_agent = (\<lambda>s. messages s @ [\<lparr>role = ''ai'', content = ''found'', name = None\<rparr>]),
      coder_agent = (\<lambda>s. messages s @ [\<lparr>role = ''ai'', content = ''coded'', name = None\<rparr>])\<rparr>"

definition example_agent_state :: AgentState where
  "example_agent_state = \<lparr>messages = [], nxt = []\<rparr>"

definition example_plan_chains :: plan_chains where
  "example_plan_chains =
     \<lparr>planner = (\<lambda>i. [''a'', ''b'']),
      agent_executor = (\<lambda>task. [\<lparr>role = ''ai'', content = ''done'', name = None\<rparr>]),
      replanner = (\<lambda>s. if length (past_steps s) < 2 then Plan [''b''] else Response ''ok''),
      final_report = (\<lambda>i p. ''report'')\<rparr>"

definition example_plan_state :: PlanExecute where
  "example_plan_state = \<lparr>input = ''task'', plan = [], past_steps = [], response = None\<rparr>"

definition example_status :: "nat \<Rightarrow> string" where
  "example_status k = (if k = 0 then ''Queued'' else if k = 1 then ''Running'' else ''Completed'')"

section \<open>Facts about the grading loop\<close>

lemma grade_loop_eq:
  "grade_loop grader q ds (f, c, calls) =
     (f @ graded_yes ds (grades grader q ds calls),
      c + length (graded_yes ds (grades grader q ds calls)),
      calls @ map (\<lambda>d. Retrieval_grader q (page_content d)) ds)"
  by (induction ds arbitrary: f c calls) (simp_all add: graded_yes_def Let_def)

lemma length_grades: "length (grades grader q ds calls) = length ds"
  by (induction ds arbitrary: calls) simp_all

lemma subseq_graded_yes: "subseq (graded_yes ds gs) ds"
  unfolding graded_yes_def
proof (induction ds arbitrary: gs)
  case Nil show ?case by simp
next
  case (Cons d ds)
  show ?case by (cases gs) (use Cons.IH in \<open>auto\<close>)
qed

lemma length_graded_yes:
  "length gs = length ds \<Longrightarrow> length (graded_yes ds gs) = length (filter (\<lambda>g. g = ''yes'') gs)"
  unfolding graded_yes_def
  by (induction ds gs rule: list_induct2') simp_all

lemma grade_documents_eq:
  "grade_documents env s calls =
     (no_update\<lparr>documents_upd := Some (graded_yes (documents s) (grades (retrieval_grader env) (question s) (documents s) calls))\<rparr>,
      calls @ map (\<lambda>d. Retrieval_grader (question s) (page_content d)) (documents s))"
  by (simp add: grade_documents_def grade_loop_eq Let_def)

lemma grade_documents_crag_eq:
  "grade_documents_crag env s calls =
     (let kept = graded_yes (documents s) (grades (document_evaluator env) (question s) (documents s) calls)
      in (\<lparr>question_upd = None, generation_upd = None, documents_upd = Some kept,
           web_search_upd = Some (if kept = [] then ''Yes'' else ''No'')\<rparr>,
          calls @ map (\<lambda>d. Retrieval_grader (question s) (page_content d)) (documents s)))"
  by (simp add: grade_documents_crag_def grade_loop_eq Let_def)

section \<open>Routing on the SDK's scores\<close>

lemma lt_not_ge: "lt g k \<Longrightarrow> \<not> ge g k"
  by (cases g) simp_all

text \<open>
  C1. In the Self-RAG workflow that grades with the Azure evaluators, a groundedness score
  below 4 makes \<open>grade_generation_v_documents_and_question\<close> answer \<open>hallucination\<close>,
  which the path map sends back to \<open>generate\<close>. A groundedness score of at least 4 leads
  to the relevance check: \<open>relevant\<close> (and \<open>END\<close>) when the relevance score is at least
  4, \<open>not relevant\<close> (and \<open>rewrite_query\<close>) otherwise. The scores are the entries
  \<open>groundedness\<close> and \<open>relevance\<close> of the evaluators' answers.
\<close>

theorem azure_router_thresholds:
  assumes "G (documents s) (generation s) ''groundedness'' = Some g"
  shows "(lt g 4 \<longrightarrow>
            grade_generation_v_documents_and_question_azure G R s = Inr ''hallucination'' \<and>
            after_generate_azure G R s = Inr ''generate'') \<and>
         (ge g 4 \<longrightarrow>
            (\<forall>r. R (question s) (generation s) ''relevance'' = Some r \<longrightarrow>
               (ge r 4 \<longrightarrow>
                  grade_generation_v_documents_and_question_azure G R s = Inr ''relevant'' \<and>
                  after_generate_azure G R s = Inr END) \<and>
               (\<not> ge r 4 \<longrightarrow>
                  grade_generation_v_documents_and_question_azure G R s = Inr ''not relevant'' \<and>
                  after_generate_azure G R s = Inr ''rewrite_query'')))"
  using assms
  by (auto simp: grade_generation_v_documents_and_question_azure_def after_generate_azure_def
        get_groundedness_score_def get_answer_relevace_score_def generate_path_map_def
        dest: lt_not_ge)

theorem azure_router_thresholds_witness:
  "grade_generation_v_documents_and_question_azure
     (\<lambda>c r. [''groundedness'' \<mapsto> Finite 3]) (\<lambda>q r. [''relevance'' \<mapsto> Finite 5])
     \<lparr>question = ''q'', generation = ''a'', documents = []\<rparr> = Inr ''hallucination'' \<and>
   after_generate_azure
     (\<lambda>c r. [''groundedness'' \<mapsto> Finite 4]) (\<lambda>q r. [''relevance'' \<mapsto> Finite 5])
     \<lparr>question = ''q'', generation = ''a'', documents = []\<rparr> = Inr END \<and>
   after_generate_azure
     (\<lambda>c r. [''groundedness'' \<mapsto> Finite 5]) (\<lambda>q r. [''relevance'' \<mapsto> NaN])
     \<lparr>question = ''q'', generation = ''a'', documents = []\<rparr> = Inr ''rewrite_query''"
  using azure_router_thresholds [of "\<lambda>c r. [''groundedness'' \<mapsto> Finite 3]"
          "\<lparr>question = ''q'', generation = ''a'', documents = []\<rparr>" "Finite 3"
          "\<lambda>q r. [''relevance'' \<mapsto> Finite 5]"]
        azure_router_thresholds [of "\<lambda>c r. [''groundedness'' \<mapsto> Finite 4]"
          "\<lparr>question = ''q'', generation = ''a'', documents = []\<rparr>" "Finite 4"
          "\<lambda>q r. [''relevance'' \<mapsto> Finite 5]"]
        azure_router_thresholds [of "\<lambda>c r. [''groundedness'' \<mapsto> Finite 5]"
          "\<lparr>question = ''q'', generation = ''a'', documents = []\<rparr>" "Finite 5"
          "\<lambda>q r. [''relevance'' \<mapsto> NaN]"]
  by simp

section \<open>How often the graders are invoked\<close>

text \<open>
  C2, as stated, fails: with two retrieved documents \<open>grade_documents\<close> invokes the
  grader twice, and for a grounded answer \<open>grade_generation_v_documents_and_question\<close>
  invokes the groundedness grader and then the answer grader.
\<close>

theorem grader_invocations_counterexample:
  "length (snd (grade_documents example_chains
                  (example_state\<lparr>documents := [example_document, example_document]\<rparr>) [])) = 2 \<and>
   length (snd (grade_generation_v_documents_and_question example_chains
                  (example_state\<lparr>generation := ''a''\<rparr>) [])) = 2"
  by (simp add: grade_documents_def grade_generation_v_documents_and_question_def
        example_chains_def example_state_def example_document_def Let_def)

text \<open>
  C2, amended. \<open>grade_documents\<close> invokes the retrieval grader exactly once for each
  retrieved document, in order, whatever the grades are.
  \<open>grade_generation_v_documents_and_question\<close> invokes the groundedness grader exactly
  once, and the answer grader once more exactly when the groundedness grade is \<open>yes\<close>:
  one invocation when it answers \<open>hallucination\<close>, two otherwise.
\<close>

theorem grader_invocations:
  "snd (grade_documents env s calls) =
     calls @ map (\<lambda>d. Retrieval_grader (question s) (page_content d)) (documents s) \<and>
   length (snd (grade_documents env s calls)) = length calls + length (documents s) \<and>
   snd (grade_generation_v_documents_and_question env s calls) =
     calls @ Groundedness_grader (documents s) (generation s)
       # (if groundedness_grader env calls (documents s) (generation s) = ''yes''
          then [Answer_grader (question s) (generation s)] else []) \<and>
   length (snd (grade_generation_v_documents_and_question env s calls)) =
     length calls + (if fst (grade_generation_v_documents_and_question env s calls) = ''hallucination'' then 1 else 2)"
  by (simp add: grade_documents_eq grade_generation_v_documents_and_question_def Let_def)

section \<open>What grading the documents changes\<close>

text \<open>
  C9. For every input state, \<open>grade_documents\<close> writes only the \<open>documents\<close> key (and
  \<open>web_search\<close> in the Corrective RAG variant): its update holds no question and no
  generation, so both are the same in the state after the node. The documents it returns
  are the input documents whose grade was \<open>yes\<close>, in their original order, hence a
  subsequence of the input documents.
\<close>

theorem grade_documents_frame:
  "question_upd (fst (grade_documents env s calls)) = None \<and>
   generation_upd (fst (grade_documents env s calls)) = None \<and>
   question (apply_update s (fst (grade_documents env s calls))) = question s \<and>
   generation (apply_update s (fst (grade_documents env s calls))) = generation s \<and>
   documents (apply_update s (fst (grade_documents env s calls))) =
     graded_yes (documents s) (grades (retrieval_grader env) (question s) (documents s) calls) \<and>
   subseq (documents (apply_update s (fst (grade_documents env s calls)))) (documents s) \<and>
   question_upd (fst (grade_documents_crag env t calls)) = None \<and>
   generation_upd (fst (grade_documents_crag env t calls)) = None \<and>
   question (apply_update_crag t (fst (grade_documents_crag env t calls))) = question t \<and>
   generation (apply_update_crag t (fst (grade_documents_crag env t calls))) = generation t \<and>
   documents (apply_update_crag t (fst (grade_documents_crag env t calls))) =
     graded_yes (documents t) (grades (document_evaluator env) (question t) (documents t) calls) \<and>
   subseq (documents (apply_update_crag t (fst (grade_documents_crag env t calls)))) (documents t)"
  by (simp add: grade_documents_eq grade_documents_crag_eq apply_update_def apply_update_crag_def
        no_update_def subseq_graded_yes Let_def)

section \<open>Corrective RAG: when the web search runs\<close>

text \<open>
  C7. In the Corrective RAG workflow \<open>grade_documents\<close> sets \<open>web_search\<close> to \<open>Yes\<close> if
  and only if no document was graded \<open>yes\<close> (and to \<open>No\<close> otherwise);
  \<open>decide_to_generate\<close> answers \<open>rewrite_query\<close> if and only if \<open>web_search\<close> is \<open>Yes\<close>,
  so the node after \<open>grade_documents\<close> is \<open>rewrite_query\<close> exactly when no document was
  graded relevant; and the only edge out of \<open>rewrite_query\<close> leads to \<open>web_search_node\<close>,
  whose only edge leads to \<open>generate\<close>.
\<close>

theorem crag_web_search_path:
  "(web_search_upd (fst (grade_documents_crag env s calls)) = Some ''Yes'') =
     (length (filter (\<lambda>g. g = ''yes'')
        (grades (document_evaluator env) (question s) (documents s) calls)) = 0) \<and>
   web_search_upd (fst (grade_documents_crag env s calls)) =
     Some (if length (filter (\<lambda>g. g = ''yes'')
             (grades (document_evaluator env) (question s) (documents s) calls)) = 0
           then ''Yes'' else ''No'') \<and>
   (decide_to_generate_crag st = ''rewrite_query'') = (web_search st = ''Yes'') \<and>
   crag_next ''grade_documents'' st =
     Some (if web_search st = ''Yes'' then ''rewrite_query'' else ''generate'') \<and>
   (crag_next ''grade_documents'' (apply_update_crag s (fst (grade_documents_crag env s calls)))
      = Some ''rewrite_query'') =
     (length (filter (\<lambda>g. g = ''yes'')
        (grades (document_evaluator env) (question s) (documents s) calls)) = 0) \<and>
   crag_next ''rewrite_query'' st = Some ''web_search_node'' \<and>
   crag_next ''web_search_node'' st = Some ''generate'' \<and>
   filter (\<lambda>e. fst e = ''rewrite_query'') crag_edges = [(''rewrite_query'', ''web_search_node'')] \<and>
   filter (\<lambda>e. fst e = ''web_search_node'') crag_edges = [(''web_search_node'', ''generate'')]"
proof -
  let ?gs = "grades (document_evaluator env) (question s) (documents s) calls"
  have len: "length (graded_yes (documents s) ?gs) = length (filter (\<lambda>g. g = ''yes'') ?gs)"
    by (rule length_graded_yes) (simp add: length_grades)
  have kept: "(graded_yes (documents s) ?gs = []) = (length (filter (\<lambda>g. g = ''yes'') ?gs) = 0)"
    using len by (metis length_0_conv)
  have upd: "web_search_upd (fst (grade_documents_crag env s calls)) =
      Some (if length (filter (\<lambda>g. g = ''yes'') ?gs) = 0 then ''Yes'' else ''No'')"
    using kept by (simp add: grade_documents_crag_eq Let_def)
  have route: "decide_to_generate_crag st = (if web_search st = ''Yes'' then ''rewrite_query'' else ''generate'')"
    for st
    by (simp add: decide_to_generate_crag_def)
  have nxt: "crag_next ''grade_documents'' st =
      Some (if web_search st = ''Yes'' then ''rewrite_query'' else ''generate'')" for st
    by (simp add: crag_next_def route grade_documents_path_map_def)
  have ws: "web_search (apply_update_crag s (fst (grade_documents_crag env s calls))) =
      (if length (filter (\<lambda>g. g = ''yes'') ?gs) = 0 then ''Yes'' else ''No'')"
    using upd by (simp add: apply_update_crag_def)
  have edges: "crag_next ''rewrite_query'' st = Some ''web_search_node''"
      "crag_next ''web_search_node'' st = Some ''generate''"
    by (simp_all add: crag_next_def crag_edges_def START_def)
  have only: "filter (\<lambda>e. fst e = ''rewrite_query'') crag_edges = [(''rewrite_query'', ''web_search_node'')]"
     "filter (\<lambda>e. fst e = ''web_search_node'') crag_edges = [(''web_search_node'', ''generate'')]"
    by (simp_all add: crag_edges_def START_def)
  show ?thesis
    using upd edges only by (simp add: route nxt ws)
qed

section \<open>Self-RAG: reaching the end\<close>

lemma self_rag_run_Suc:
  "self_rag_run env (Suc n) cfg = Some c \<longleftrightarrow>
     (\<exists>c'. self_rag_run env n cfg = Some c' \<and> self_rag_step env c' = Some c)"
  by (induction n arbitrary: cfg) (auto split: option.splits)

lemma apply_update_generation:
  "apply_update s (no_update\<lparr>generation_upd := Some g\<rparr>) = s\<lparr>generation := g\<rparr>"
  by (simp add: apply_update_def no_update_def)

lemma generate_step:
  "self_rag_step env (''generate'', s, calls) =
     (let s' = s\<lparr>generation := rag_chain env calls (documents s) (question s)\<rparr>;
          r = grade_generation_v_documents_and_question env s'
                (calls @ [Rag_chain (documents s) (question s)])
      in map_option (\<lambda>n. (n, s', snd r)) (map_of generate_path_map (fst r)))"
  by (simp add: self_rag_step_def generate_def apply_update_generation Let_def
        split: prod.splits)

lemma route_cases:
  "fst (grade_generation_v_documents_and_question env s calls) =
     (if groundedness_grader env calls (documents s) (generation s) = ''yes''
      then if answer_grader env (calls @ [Groundedness_grader (documents s) (generation s)])
                (question s) (generation s) = ''yes''
           then ''relevant'' else ''not relevant''
      else ''hallucination'')"
  by (simp add: grade_generation_v_documents_and_question_def Let_def)

lemma route_calls:
  "fst (grade_generation_v_documents_and_question env s calls) = ''relevant'' \<Longrightarrow>
   snd (grade_generation_v_documents_and_question env s calls) =
     calls @ [Groundedness_grader (documents s) (generation s),
              Answer_grader (question s) (generation s)]"
  by (simp add: grade_generation_v_documents_and_question_def Let_def split: if_splits)

lemma step_END:
  assumes "self_rag_step env (node, s, calls) = Some (END, s', calls')"
  shows "node = ''generate''"
    and "s' = s\<lparr>generation := rag_chain env calls (documents s) (question s)\<rparr>"
    and "fst (grade_generation_v_documents_and_question env s'
            (calls @ [Rag_chain (documents s) (question s)])) = ''relevant''"
    and "calls' = snd (grade_generation_v_documents_and_question env s'
            (calls @ [Rag_chain (documents s) (question s)]))"
proof -
  show node: "node = ''generate''"
    using assms
    by (auto simp: self_rag_step_def START_def END_def Let_def self_rag_edges_def
        grade_documents_path_map_def decide_to_generate_def
        split: if_splits prod.splits)
  from assms show s': "s' = s\<lparr>generation := rag_chain env calls (documents s) (question s)\<rparr>"
    unfolding node generate_step by (auto simp: Let_def)
  from assms show "fst (grade_generation_v_documents_and_question env s'
            (calls @ [Rag_chain (documents s) (question s)])) = ''relevant''"
    unfolding node generate_step s'
    by (auto simp: Let_def generate_path_map_def END_def split: if_splits)
  from assms show "calls' = snd (grade_generation_v_documents_and_question env s'
            (calls @ [Rag_chain (documents s) (question s)]))"
    unfolding node generate_step s' by (auto simp: Let_def)
qed


lemma generate_route_eq:
  "generate_route env s calls =
     fst (grade_generation_v_documents_and_question env
            (s\<lparr>generation := rag_chain env calls (documents s) (question s)\<rparr>)
            (calls @ [Rag_chain (documents s) (question s)]))"
  by (simp add: generate_route_def generate_def apply_update_generation Let_def)

lemma generate_route_cases:
  "generate_route env s calls =
     (if groundedness_grader env (calls @ [Rag_chain (documents s) (question s)])
           (documents s) (rag_chain env calls (documents s) (question s)) = ''yes''
      then if answer_grader env
                (calls @ [Rag_chain (documents s) (question s),
                          Groundedness_grader (documents s)
                            (rag_chain env calls (documents s) (question s))])
                (question s) (rag_chain env calls (documents s) (question s)) = ''yes''
           then ''relevant'' else ''not relevant''
      else ''hallucination'')"
  by (simp add: generate_route_eq route_cases)

lemma generate_step_node:
  "map_option fst (self_rag_step env (''generate'', s, calls)) =
     Some (if generate_route env s calls = ''hallucination'' then ''generate''
           else if generate_route env s calls = ''not relevant'' then ''rewrite_query''
           else END)"
  unfolding generate_step generate_route_eq
  by (simp add: Let_def route_cases generate_path_map_def)

lemma graded_at_END:
  assumes "self_rag_step env (node, s, calls) = Some (END, s', calls')"
  shows "\<exists>c. calls' = c @ [Groundedness_grader (documents s') (generation s'),
                          Answer_grader (question s') (generation s')] \<and>
           groundedness_grader env c (documents s') (generation s') = ''yes'' \<and>
           answer_grader env (c @ [Groundedness_grader (documents s') (generation s')])
             (question s') (generation s') = ''yes''"
proof -
  note e = step_END [OF assms]
  let ?c = "calls @ [Rag_chain (documents s) (question s)]"
  from e(4) route_calls [OF e(3)]
  have c: "calls' = ?c @ [Groundedness_grader (documents s') (generation s'),
                          Answer_grader (question s') (generation s')]"
    by simp
  from e(3) have "groundedness_grader env ?c (documents s') (generation s') = ''yes'' \<and>
      answer_grader env (?c @ [Groundedness_grader (documents s') (generation s')])
        (question s') (generation s') = ''yes''"
    unfolding route_cases by (simp split: if_splits)
  with c show ?thesis by blast
qed

lemma graded_at_END_run:
  assumes "self_rag_run env n (START, s0, calls0) = Some (END, s', calls')"
  shows "\<exists>c. calls' = c @ [Groundedness_grader (documents s') (generation s'),
                          Answer_grader (question s') (generation s')] \<and>
           groundedness_grader env c (documents s') (generation s') = ''yes'' \<and>
           answer_grader env (c @ [Groundedness_grader (documents s') (generation s')])
             (question s') (generation s') = ''yes''"
proof (cases n)
  case 0
  with assms show ?thesis by (simp add: START_def END_def)
next
  case (Suc m)
  with assms have "self_rag_run env (Suc m) (START, s0, calls0) = Some (END, s', calls')"
    by simp
  then obtain c' where "self_rag_step env c' = Some (END, s', calls')"
    unfolding self_rag_run_Suc by blast
  then show ?thesis by (cases c') (auto dest: graded_at_END)
qed

text \<open>
  C4. The Self-RAG workflow enters \<open>END\<close> only from the \<open>generate\<close> node, and only when
  the answer just generated was graded \<open>yes\<close> by the groundedness grader and \<open>yes\<close> by
  the answer grader: these two grader calls, on the final state's documents, question and
  generation, are the last two calls of a step, and of any run from \<open>START\<close>, that ends in
  \<open>END\<close>. After \<open>generate\<close> the grade \<open>hallucination\<close> always leads back to \<open>generate\<close>,
  \<open>not relevant\<close> always leads to \<open>rewrite_query\<close> (which leads to \<open>retrieve\<close>, which
  leads to \<open>grade_documents\<close>), and \<open>END\<close> follows exactly when the grade is \<open>relevant\<close>.
\<close>

theorem self_rag_end_only_when_graded:
  "(self_rag_step env (node, s, calls) = Some (END, s', calls') \<longrightarrow>
      node = ''generate'' \<and>
      generation s' = rag_chain env calls (documents s) (question s) \<and>
      (\<exists>c. calls' = c @ [Groundedness_grader (documents s') (generation s'),
                           Answer_grader (question s') (generation s')] \<and>
           groundedness_grader env c (documents s') (generation s') = ''yes'' \<and>
           answer_grader env (c @ [Groundedness_grader (documents s') (generation s')])
             (question s') (generation s') = ''yes'')) \<and>
   (self_rag_run env n (START, s0, calls0) = Some (END, s', calls') \<longrightarrow>
      (\<exists>c. calls' = c @ [Groundedness_grader (documents s') (generation s'),
                           Answer_grader (question s') (generation s')] \<and>
           groundedness_grader env c (documents s') (generation s') = ''yes'' \<and>
           answer_grader env (c @ [Groundedness_grader (documents s') (generation s')])
             (question s') (generation s') = ''yes'')) \<and>
   map_option fst (self_rag_step env (''generate'', s, calls)) =
     Some (if generate_route env s calls = ''hallucination'' then ''generate''
           else if generate_route env s calls = ''not relevant'' then ''rewrite_query''
           else END) \<and>
   (map_option fst (self_rag_step env (''generate'', s, calls)) = Some END) =
     (generate_route env s calls = ''relevant'') \<and>
   map_option fst (self_rag_step env (''rewrite_query'', s, calls)) = Some ''retrieve'' \<and>
   map_option fst (self_rag_step env (''retrieve'', s, calls)) = Some ''grade_documents''"
proof -
  have a: "self_rag_step env (node, s, calls) = Some (END, s', calls') \<longrightarrow>
      node = ''generate'' \<and>
      generation s' = rag_chain env calls (documents s) (question s)"
    by (auto dest: step_END(1) step_END(2))
  have d: "(map_option fst (self_rag_step env (''generate'', s, calls)) = Some END) =
     (generate_route env s calls = ''relevant'')"
    unfolding generate_step_node by (simp add: generate_route_cases END_def)
  have e: "map_option fst (self_rag_step env (''rewrite_query'', s, calls)) = Some ''retrieve''"
    by (simp add: self_rag_step_def rewrite_query_def self_rag_edges_def START_def Let_def)
  have f: "map_option fst (self_rag_step env (''retrieve'', s, calls)) = Some ''grade_documents''"
    by (simp add: self_rag_step_def retrieve_def self_rag_edges_def START_def Let_def)
  show ?thesis
    using a graded_at_END [of env node s calls s' calls']
      graded_at_END_run [of env n s0 calls0 s' calls'] generate_step_node [of env s calls] d e f
    by blast
qed

theorem self_rag_end_only_when_graded_witness:
  "self_rag_step example_chains
     (''generate'', example_state\<lparr>documents := [example_document]\<rparr>,
      [Pdf_retriever ''q'', Retrieval_grader ''q'' ''d'']) =
     Some (END, \<lparr>question = ''q'', generation = ''a'', documents = [example_document]\<rparr>,
           [Pdf_retriever ''q'', Retrieval_grader ''q'' ''d'', Rag_chain [example_document] ''q'',
            Groundedness_grader [example_document] ''a'', Answer_grader ''q'' ''a'']) \<and>
   self_rag_run example_chains 4 (START, example_state, []) =
     Some (END, \<lparr>question = ''q'', generation = ''a'', documents = [example_document]\<rparr>,
           [Pdf_retriever ''q'', Retrieval_grader ''q'' ''d'', Rag_chain [example_document] ''q'',
            Groundedness_grader [example_document] ''a'', Answer_grader ''q'' ''a'']) \<and>
   (\<exists>c. [Pdf_retriever ''q'', Retrieval_grader ''q'' ''d'', Rag_chain [example_document] ''q'',
         Groundedness_grader [example_document] ''a'', Answer_grader ''q'' ''a''] =
        c @ [Groundedness_grader [example_document] ''a'', Answer_grader ''q'' ''a''] \<and>
        groundedness_grader example_chains c [example_document] ''a'' = ''yes'' \<and>
        answer_grader example_chains (c @ [Groundedness_grader [example_document] ''a''])
          ''q'' ''a'' = ''yes'')"
proof -
  let ?s' = "\<lparr>question = ''q'', generation = ''a'', documents = [example_document]\<rparr>"
  let ?calls = "[Pdf_retriever ''q'', Retrieval_grader ''q'' ''d'', Rag_chain [example_document] ''q'',
            Groundedness_grader [example_document] ''a'', Answer_grader ''q'' ''a'']"
  have step: "self_rag_step example_chains
     (''generate'', example_state\<lparr>documents := [example_document]\<rparr>,
      [Pdf_retriever ''q'', Retrieval_grader ''q'' ''d'']) = Some (END, ?s', ?calls)"
    by (simp add: self_rag_step_def generate_def grade_generation_v_documents_and_question_def
          apply_update_def no_update_def generate_path_map_def example_chains_def
          example_state_def Let_def)
  have run: "self_rag_run example_chains 4 (START, example_state, []) = Some (END, ?s', ?calls)"
    by (simp add: eval_nat_numeral self_rag_step_def retrieve_def grade_documents_def
          generate_def grade_generation_v_documents_and_question_def decide_to_generate_def
          apply_update_def no_update_def generate_path_map_def grade_documents_path_map_def
          self_rag_edges_def example_chains_def example_state_def example_document_def
          START_def END_def Let_def)
  from self_rag_end_only_when_graded
         [of example_chains "''generate''" "example_state\<lparr>documents := [example_document]\<rparr>"
             "[Pdf_retriever ''q'', Retrieval_grader ''q'' ''d'']" ?s' ?calls 4 example_state "[]"]
       run
  have "\<exists>c. ?calls = c @ [Groundedness_grader (documents ?s') (generation ?s'),
                           Answer_grader (question ?s') (generation ?s')] \<and>
           groundedness_grader example_chains c (documents ?s') (generation ?s') = ''yes'' \<and>
           answer_grader example_chains (c @ [Groundedness_grader (documents ?s') (generation ?s')])
             (question ?s') (generation ?s') = ''yes''"
    by blast
  then have "\<exists>c. ?calls = c @ [Groundedness_grader [example_document] ''a'', Answer_grader ''q'' ''a''] \<and>
        groundedness_grader example_chains c [example_document] ''a'' = ''yes'' \<and>
        answer_grader example_chains (c @ [Groundedness_grader [example_document] ''a''])
          ''q'' ''a'' = ''yes''"
    by simp
  with step run show ?thesis by blast
qed

section \<open>The supervisor chooses the next agent\<close>

lemma follow_conditional_map:
  "follow conditional_map k =
     (if k = ''Researcher'' then Inr ''Researcher'' else if k = ''Coder'' then Inr ''Coder''
      else if k = ''FINISH'' then Inr END else Inl (KeyError k))"
  by (simp add: follow_def conditional_map_def members_def)

lemma agent_node_next: "agent_node s agent nm = Inr u \<Longrightarrow> nxt_upd u = Some ''Supervisor''"
  by (auto simp: agent_node_def Let_def split: if_splits)

lemma member_step:
  assumes "m \<in> set members" and "supervisor_step env (m, s) = Inr (n, s')"
  shows "n = ''Supervisor'' \<and> nxt s' = ''Supervisor''"
  using assms
  by (auto simp: members_def supervisor_step_def research_node_def coder_node_def
        follow_def supervisor_edges_def START_def apply_agent_update_def
        split: sum.splits dest!: agent_node_next)

lemma supervisor_node_step:
  assumes "supervisor_step env (''Supervisor'', s) = Inr (n, s')"
  shows "nxt s' = supervisor_llm env s \<and> nxt s' \<in> {''FINISH'', ''Researcher'', ''Coder''} \<and>
         n = (if nxt s' = ''FINISH'' then END else nxt s') \<and> messages s' = messages s"
  using assms
  by (auto simp: supervisor_step_def supervisor_agent_def validate_RouteResponse_def
        options_for_next_def members_def follow_conditional_map get_next_def
        apply_agent_update_def Let_def
        split: sum.splits if_splits)

text \<open>
  C5. In the supervisor graph the \<open>next\<close> field of a validated \<open>RouteResponse\<close> is one of
  \<open>FINISH\<close>, \<open>Researcher\<close> and \<open>Coder\<close>; \<open>get_next\<close> returns exactly the state's \<open>next\<close>
  field, and the conditional map sends each of the three values to the member node of that
  name, or to \<open>END\<close> for \<open>FINISH\<close>, so the node after \<open>Supervisor\<close> is the one its model
  chose. \<open>agent_node\<close> sets \<open>next\<close> to \<open>Supervisor\<close>, each member has the single edge back
  to \<open>Supervisor\<close>, and so the node after any member is \<open>Supervisor\<close>.
\<close>

theorem supervisor_selects_next:
  "(supervisor_agent env s = Inr r \<longrightarrow> route_next r \<in> {''FINISH'', ''Researcher'', ''Coder''}) \<and>
   get_next s = nxt s \<and>
   (k \<in> set options_for_next \<longrightarrow>
      follow conditional_map k = Inr (if k = ''FINISH'' then END else k)) \<and>
   (supervisor_step env (''Supervisor'', s) = Inr (n, s') \<longrightarrow>
      nxt s' = supervisor_llm env s \<and> nxt s' \<in> {''FINISH'', ''Researcher'', ''Coder''} \<and>
      n = (if nxt s' = ''FINISH'' then END else nxt s')) \<and>
   (agent_node s agent nm = Inr u \<longrightarrow> nxt_upd u = Some ''Supervisor'') \<and>
   (m \<in> set members \<longrightarrow> filter (\<lambda>e. fst e = m) supervisor_edges = [(m, ''Supervisor'')]) \<and>
   (m \<in> set members \<and> supervisor_step env (m, s) = Inr (n', s'') \<longrightarrow>
      n' = ''Supervisor'' \<and> nxt s'' = ''Supervisor'')"
proof -
  have a: "supervisor_agent env s = Inr r \<longrightarrow> route_next r \<in> {''FINISH'', ''Researcher'', ''Coder''}"
    by (auto simp: supervisor_agent_def validate_RouteResponse_def options_for_next_def members_def
          split: if_splits)
  have b: "k \<in> set options_for_next \<longrightarrow> follow conditional_map k = Inr (if k = ''FINISH'' then END else k)"
    by (auto simp: options_for_next_def members_def follow_conditional_map)
  have c: "m \<in> set members \<longrightarrow> filter (\<lambda>e. fst e = m) supervisor_edges = [(m, ''Supervisor'')]"
    by (auto simp: members_def supervisor_edges_def START_def)
  show ?thesis
    using a b c supervisor_node_step [of env s n s'] agent_node_next [of s agent nm u]
      member_step [of m env s n' s'']
    unfolding get_next_def by blast
qed

theorem supervisor_selects_next_witness:
  "supervisor_agent example_agents example_agent_state = Inr \<lparr>route_next = ''Coder''\<rparr> \<and>
   ''FINISH'' \<in> set options_for_next \<and> follow conditional_map ''FINISH'' = Inr END \<and>
   supervisor_step example_agents (''Supervisor'', example_agent_state) =
     Inr (''Coder'', example_agent_state\<lparr>nxt := ''Coder''\<rparr>) \<and>
   agent_node example_agent_state (coder_agent example_agents) ''Coder'' =
     Inr \<lparr>messages_upd = Some [HumanMessage ''coded'' ''Coder''], nxt_upd = Some ''Supervisor''\<rparr> \<and>
   ''Coder'' \<in> set members \<and>
   supervisor_step example_agents (''Coder'', example_agent_state\<lparr>nxt := ''Coder''\<rparr>) =
     Inr (''Supervisor'',
          \<lparr>messages = [HumanMessage ''coded'' ''Coder''], nxt = ''Supervisor''\<rparr>) \<and>
   filter (\<lambda>e. fst e = ''Coder'') supervisor_edges = [(''Coder'', ''Supervisor'')]"
proof -
  have h1: "supervisor_agent example_agents example_agent_state = Inr \<lparr>route_next = ''Coder''\<rparr>"
    by (simp add: supervisor_agent_def validate_RouteResponse_def options_for_next_def
          members_def example_agents_def)
  have h2: "''FINISH'' \<in> set options_for_next"
    by (simp add: options_for_next_def)
  have h3: "supervisor_step example_agents (''Supervisor'', example_agent_state) =
     Inr (''Coder'', example_agent_state\<lparr>nxt := ''Coder''\<rparr>)"
    by (simp add: supervisor_step_def supervisor_agent_def validate_RouteResponse_def
          options_for_next_def example_agents_def apply_agent_update_def get_next_def follow_def
          conditional_map_def members_def example_agent_state_def)
  have h4: "agent_node example_agent_state (coder_agent example_agents) ''Coder'' =
     Inr \<lparr>messages_upd = Some [HumanMessage ''coded'' ''Coder''], nxt_upd = Some ''Supervisor''\<rparr>"
    by (simp add: agent_node_def example_agents_def example_agent_state_def)
  have h5: "''Coder'' \<in> set members"
    by (simp add: members_def)
  have h6: "supervisor_step example_agents (''Coder'', example_agent_state\<lparr>nxt := ''Coder''\<rparr>) =
     Inr (''Supervisor'',
          \<lparr>messages = [HumanMessage ''coded'' ''Coder''], nxt = ''Supervisor''\<rparr>)"
    by (simp add: supervisor_step_def coder_node_def agent_node_def apply_agent_update_def
          follow_def supervisor_edges_def members_def START_def example_agents_def
          example_agent_state_def)
  from supervisor_selects_next
         [of example_agents example_agent_state "\<lparr>route_next = ''Coder''\<rparr>" "''FINISH''"
             "''Coder''" "example_agent_state\<lparr>nxt := ''Coder''\<rparr>"
             "coder_agent example_agents" "''Coder''"
             "\<lparr>messages_upd = Some [HumanMessage ''coded'' ''Coder''], nxt_upd = Some ''Supervisor''\<rparr>"
             "''Coder''" "''Supervisor''"
             "\<lparr>messages = [HumanMessage ''coded'' ''Coder''], nxt = ''Supervisor''\<rparr>"]
       h2 h5
  have "follow conditional_map ''FINISH'' = Inr END \<and>
        filter (\<lambda>e. fst e = ''Coder'') supervisor_edges = [(''Coder'', ''Supervisor'')]"
    by simp
  with h1 h2 h3 h4 h5 h6 show ?thesis by blast
qed

section \<open>Plan-and-Execute\<close>

lemma plan_execute_run_Suc:
  "plan_execute_run env (Suc n) cfg = Inr c \<longleftrightarrow>
     (\<exists>c'. plan_execute_run env n cfg = Inr c' \<and> plan_execute_step env c' = Inr c)"
  by (induction n arbitrary: cfg) (auto split: sum.splits)

lemma follow_plan_execute_edges:
  "follow plan_execute_edges node =
     (if node = START then Inr ''planner'' else if node = ''planner'' then Inr ''execute''
      else if node = ''execute'' then Inr ''replan''
      else if node = ''final_report'' then Inr END else Inl (KeyError node))"
  by (simp add: follow_def plan_execute_edges_def START_def)

lemma follow_should_end: "follow replan_path_map (should_end s) = Inr (should_end s)"
  by (simp add: follow_def replan_path_map_def should_end_def)

lemma should_end_iff:
  "(should_end s = ''final_report'') = (\<exists>r. response s = Some r \<and> r \<noteq> [])"
  "(should_end s = ''execute'') = (\<not> (\<exists>r. response s = Some r \<and> r \<noteq> []))"
  by (auto simp: should_end_def split: option.splits)

lemma replan_step_shape:
  "(\<exists>r. replan_step env s = no_plan_update\<lparr>response_upd := Some r\<rparr>) \<or>
   (\<exists>p. p \<noteq> [] \<and> replan_step env s = no_plan_update\<lparr>plan_upd := Some p\<rparr>)"
  by (cases "replanner env s") (auto simp: replan_step_def)

lemma replan_step_plan: "plan_upd (replan_step env s) \<noteq> Some []"
  using replan_step_shape [of env s] by (auto simp: no_plan_update_def)

lemma plan_after_replan: "plan s \<noteq> [] \<Longrightarrow> plan (apply_plan_update s (replan_step env s)) \<noteq> []"
  using replan_step_plan [of env s]
  by (auto simp: apply_plan_update_def split: option.splits)

lemma should_end_not_replan: "should_end s \<noteq> ''replan''"
  by (simp add: should_end_def)

lemma step_into_replan:
  assumes "plan_execute_step env (node, s) = Inr (''replan'', s')"
  shows "node = ''execute'' \<and> plan s \<noteq> [] \<and> plan s' = plan s"
  using assms
  by (auto simp: plan_execute_step_def follow_plan_execute_edges follow_should_end
        should_end_not_replan
        START_def END_def execute_step_def apply_plan_update_def no_plan_update_def Let_def
        split: if_splits sum.splits list.splits)

lemma replan_reached_plan:
  assumes "plan_execute_run env n (START, s0) = Inr (''replan'', s)"
  shows "plan s \<noteq> []"
proof (cases n)
  case 0
  with assms show ?thesis by (simp add: START_def)
next
  case (Suc m)
  with assms have "plan_execute_run env (Suc m) (START, s0) = Inr (''replan'', s)" by simp
  then obtain c' where "plan_execute_step env c' = Inr (''replan'', s)"
    unfolding plan_execute_run_Suc by blast
  then show ?thesis by (cases c') (auto dest: step_into_replan)
qed

lemma execute_step_plan0:
  "(execute_step env s = Inl (IndexError ''plan[0]'')) = (plan s = [])"
  by (auto simp: execute_step_def Let_def split: list.splits)

lemma example_execute:
  "plan_execute_step example_plan_chains
     (''execute'', example_plan_state\<lparr>plan := [''a'', ''b'']\<rparr>) =
   Inr (''replan'', example_plan_state\<lparr>plan := [''a'', ''b''], past_steps := [(''a'', ''done'')]\<rparr>)"
  by (simp add: plan_execute_step_def execute_step_def follow_def plan_execute_edges_def
        START_def apply_plan_update_def no_plan_update_def example_plan_chains_def
        example_plan_state_def Let_def)

text \<open>
  C6. The only edge out of \<open>START\<close> leads to \<open>planner\<close>; the planner writes its steps into
  \<open>plan\<close> and \<open>execute\<close> follows, which runs the first step of that plan and records it in
  \<open>past_steps\<close>; \<open>replan\<close> follows every \<open>execute\<close> and writes either a response or a
  new, non-empty plan; \<open>should_end\<close> answers \<open>final_report\<close> exactly when the state holds a
  non-empty \<open>response\<close> and \<open>execute\<close> otherwise, and the node after \<open>replan\<close> is the one of
  that name.
\<close>

theorem plan_then_execute:
  "filter (\<lambda>e. fst e = START) plan_execute_edges = [(START, ''planner'')] \<and>
   plan_execute_step env (START, s) = Inr (''planner'', s) \<and>
   plan_execute_step env (''planner'', s) = Inr (''execute'', s\<lparr>plan := planner env (input s)\<rparr>) \<and>
   (plan_execute_step env (''execute'', s) = Inr (n, s') \<longrightarrow>
      n = ''replan'' \<and> plan s' = plan s \<and>
      (\<exists>r. past_steps s' = past_steps s @ [(hd (plan s), r)])) \<and>
   ((\<exists>r. replan_step env s = no_plan_update\<lparr>response_upd := Some r\<rparr>) \<or>
    (\<exists>p. p \<noteq> [] \<and> replan_step env s = no_plan_update\<lparr>plan_upd := Some p\<rparr>)) \<and>
   (should_end s = ''final_report'') = (\<exists>r. response s = Some r \<and> r \<noteq> []) \<and>
   (should_end s = ''execute'') = (\<not> (\<exists>r. response s = Some r \<and> r \<noteq> [])) \<and>
   plan_execute_step env (''replan'', s) =
     Inr (should_end (apply_plan_update s (replan_step env s)),
          apply_plan_update s (replan_step env s))"
proof -
  have a: "filter (\<lambda>e. fst e = START) plan_execute_edges = [(START, ''planner'')]"
    by (simp add: plan_execute_edges_def START_def)
  have b: "plan_execute_step env (START, s) = Inr (''planner'', s)"
    by (simp add: plan_execute_step_def follow_plan_execute_edges START_def)
  have c: "plan_execute_step env (''planner'', s) = Inr (''execute'', s\<lparr>plan := planner env (input s)\<rparr>)"
    by (simp add: plan_execute_step_def follow_plan_execute_edges START_def plan_step_def
          apply_plan_update_def no_plan_update_def)
  have d: "plan_execute_step env (''execute'', s) = Inr (n, s') \<longrightarrow>
      n = ''replan'' \<and> plan s' = plan s \<and>
      (\<exists>r. past_steps s' = past_steps s @ [(hd (plan s), r)])"
    by (auto simp: plan_execute_step_def follow_plan_execute_edges START_def execute_step_def
          apply_plan_update_def no_plan_update_def Let_def
          split: sum.splits list.splits if_splits)
  have e: "plan_execute_step env (''replan'', s) =
     Inr (should_end (apply_plan_update s (replan_step env s)),
          apply_plan_update s (replan_step env s))"
    by (simp add: plan_execute_step_def follow_should_end Let_def)
  show ?thesis
    using a b c d e replan_step_shape [of env s] should_end_iff [of s] by blast
qed

theorem plan_then_execute_witness:
  "plan_execute_step example_plan_chains
     (''execute'', example_plan_state\<lparr>plan := [''a'', ''b'']\<rparr>) =
     Inr (''replan'', example_plan_state\<lparr>plan := [''a'', ''b''], past_steps := [(''a'', ''done'')]\<rparr>) \<and>
   plan_execute_step example_plan_chains (''planner'', example_plan_state) =
     Inr (''execute'', example_plan_state\<lparr>plan := [''a'', ''b'']\<rparr>) \<and>
   (\<exists>r. past_steps (example_plan_state\<lparr>plan := [''a'', ''b''], past_steps := [(''a'', ''done'')]\<rparr>) =
          past_steps (example_plan_state\<lparr>plan := [''a'', ''b'']\<rparr>) @
          [(hd (plan (example_plan_state\<lparr>plan := [''a'', ''b'']\<rparr>)), r)]) \<and>
   should_end (example_plan_state\<lparr>response := Some ''ok''\<rparr>) = ''final_report'' \<and>
   should_end (example_plan_state\<lparr>response := Some []\<rparr>) = ''execute'' \<and>
   should_end example_plan_state = ''execute''"
proof -
  note t = plan_then_execute
  from t [of example_plan_chains "example_plan_state\<lparr>plan := [''a'', ''b'']\<rparr>" "''replan''"
            "example_plan_state\<lparr>plan := [''a'', ''b''], past_steps := [(''a'', ''done'')]\<rparr>"]
       example_execute
  have e: "\<exists>r. past_steps (example_plan_state\<lparr>plan := [''a'', ''b''], past_steps := [(''a'', ''done'')]\<rparr>) =
          past_steps (example_plan_state\<lparr>plan := [''a'', ''b'']\<rparr>) @
          [(hd (plan (example_plan_state\<lparr>plan := [''a'', ''b'']\<rparr>)), r)]"
    by blast
  have p: "planner example_plan_chains (input example_plan_state) = [''a'', ''b'']"
    by (simp add: example_plan_chains_def)
  have r: "response (example_plan_state\<lparr>response := Some ''ok''\<rparr>) = Some ''ok''"
      "response (example_plan_state\<lparr>response := Some []\<rparr>) = Some []"
      "response example_plan_state = None"
    by (simp_all add: example_plan_state_def)
  from t [of example_plan_chains example_plan_state] p
  have a: "plan_execute_step example_plan_chains (''planner'', example_plan_state) =
     Inr (''execute'', example_plan_state\<lparr>plan := [''a'', ''b'']\<rparr>)"
    by simp
  from t [of example_plan_chains "example_plan_state\<lparr>response := Some ''ok''\<rparr>"] r(1)
  have b: "should_end (example_plan_state\<lparr>response := Some ''ok''\<rparr>) = ''final_report''"
    by simp
  from t [of example_plan_chains "example_plan_state\<lparr>response := Some []\<rparr>"] r(2)
  have c: "should_end (example_plan_state\<lparr>response := Some []\<rparr>) = ''execute''"
    by simp
  from t [of example_plan_chains example_plan_state] r(3)
  have d: "should_end example_plan_state = ''execute''"
    by simp
  from example_execute a b c d e show ?thesis by blast
qed

text \<open>
  C8. \<open>replan_step\<close> never writes an empty plan: for every output of the replanner it
  returns a response (the action's own when the action is a \<open>Response\<close>, or
  \<open>No more steps needed.\<close> when the new plan has no step) or a plan with at least one
  step (the new plan itself). Hence on every run from \<open>START\<close>, when
  \<open>replan\<close> hands over to \<open>execute\<close> the plan is not empty and \<open>plan[0]\<close> in
  \<open>execute_step\<close> does not raise.
\<close>

theorem replan_never_empty_plan:
  "plan_upd (replan_step env s) \<noteq> Some [] \<and>
   ((\<exists>r. replan_step env s = no_plan_update\<lparr>response_upd := Some r\<rparr>) \<or>
    (\<exists>p. p \<noteq> [] \<and> replan_step env s = no_plan_update\<lparr>plan_upd := Some p\<rparr>)) \<and>
   (replanner env s = Plan [] \<longrightarrow>
      replan_step env s = no_plan_update\<lparr>response_upd := Some ''No more steps needed.''\<rparr>) \<and>
   (replanner env s = Response r \<longrightarrow>
      replan_step env s = no_plan_update\<lparr>response_upd := Some r\<rparr>) \<and>
   (replanner env s = Plan p \<and> p \<noteq> [] \<longrightarrow>
      replan_step env s = no_plan_update\<lparr>plan_upd := Some p\<rparr>) \<and>
   (plan_execute_run env n (START, s0) = Inr (''replan'', s1) \<and>
    plan_execute_step env (''replan'', s1) = Inr (''execute'', s2) \<longrightarrow>
      plan s2 \<noteq> [] \<and>
      execute_step env s2 \<noteq> Inl (IndexError ''plan[0]'') \<and>
      plan_execute_step env (''execute'', s2) \<noteq> Inl (IndexError ''plan[0]''))"
proof -
  have zero: "replanner env s = Plan [] \<longrightarrow>
      replan_step env s = no_plan_update\<lparr>response_upd := Some ''No more steps needed.''\<rparr>"
    by (simp add: replan_step_def)
  have resp: "replanner env s = Response r \<longrightarrow>
      replan_step env s = no_plan_update\<lparr>response_upd := Some r\<rparr>"
    by (simp add: replan_step_def)
  have steps: "replanner env s = Plan p \<and> p \<noteq> [] \<longrightarrow>
      replan_step env s = no_plan_update\<lparr>plan_upd := Some p\<rparr>"
    by (simp add: replan_step_def)
  have path: "plan s2 \<noteq> [] \<and> execute_step env s2 \<noteq> Inl (IndexError ''plan[0]'') \<and>
      plan_execute_step env (''execute'', s2) \<noteq> Inl (IndexError ''plan[0]'')"
    if r: "plan_execute_run env n (START, s0) = Inr (''replan'', s1)"
      and e: "plan_execute_step env (''replan'', s1) = Inr (''execute'', s2)"
  proof -
    from r have "plan s1 \<noteq> []" by (rule replan_reached_plan)
    moreover from e have "s2 = apply_plan_update s1 (replan_step env s1)"
      by (auto simp: plan_execute_step_def follow_should_end Let_def)
    ultimately have p: "plan s2 \<noteq> []" by (simp add: plan_after_replan)
    then have x: "execute_step env s2 \<noteq> Inl (IndexError ''plan[0]'')"
      by (simp add: execute_step_plan0)
    then have "plan_execute_step env (''execute'', s2) \<noteq> Inl (IndexError ''plan[0]'')"
      by (auto simp: plan_execute_step_def follow_plan_execute_edges split: sum.splits)
    with p x show ?thesis by simp
  qed
  show ?thesis
    using replan_step_plan [of env s] replan_step_shape [of env s] zero resp steps path
    by blast
qed

theorem replan_never_empty_plan_witness:
  "plan_execute_run example_plan_chains 3 (START, example_plan_state) =
     Inr (''replan'', example_plan_state\<lparr>plan := [''a'', ''b''], past_steps := [(''a'', ''done'')]\<rparr>) \<and>
   plan_execute_step example_plan_chains
     (''replan'', example_plan_state\<lparr>plan := [''a'', ''b''], past_steps := [(''a'', ''done'')]\<rparr>) =
     Inr (''execute'', example_plan_state\<lparr>plan := [''b''], past_steps := [(''a'', ''done'')]\<rparr>) \<and>
   plan_execute_step example_plan_chains
     (''execute'', example_plan_state\<lparr>plan := [''b''], past_steps := [(''a'', ''done'')]\<rparr>)
     \<noteq> Inl (IndexError ''plan[0]'') \<and>
   replanner example_plan_chains (example_plan_state\<lparr>past_steps := [(''a'', ''x''), (''b'', ''y'')]\<rparr>)
     = Response ''ok'' \<and>
   replan_step example_plan_chains (example_plan_state\<lparr>past_steps := [(''a'', ''x''), (''b'', ''y'')]\<rparr>)
     = no_plan_update\<lparr>response_upd := Some ''ok''\<rparr> \<and>
   replan_step example_plan_chains
     (example_plan_state\<lparr>plan := [''a'', ''b''], past_steps := [(''a'', ''done'')]\<rparr>)
     = no_plan_update\<lparr>plan_upd := Some [''b'']\<rparr>"
proof -
  let ?s1 = "example_plan_state\<lparr>plan := [''a'', ''b''], past_steps := [(''a'', ''done'')]\<rparr>"
  let ?s2 = "example_plan_state\<lparr>plan := [''b''], past_steps := [(''a'', ''done'')]\<rparr>"
  have run: "plan_execute_run example_plan_chains 3 (START, example_plan_state) = Inr (''replan'', ?s1)"
    by (simp add: eval_nat_numeral plan_execute_step_def execute_step_def plan_step_def
        follow_def plan_execute_edges_def
        START_def apply_plan_update_def no_plan_update_def example_plan_chains_def
        example_plan_state_def Let_def)
  have step: "plan_execute_step example_plan_chains (''replan'', ?s1) = Inr (''execute'', ?s2)"
    by (simp add: plan_execute_step_def replan_step_def should_end_def follow_def
        replan_path_map_def apply_plan_update_def no_plan_update_def example_plan_chains_def
        example_plan_state_def Let_def)
  have resp: "replanner example_plan_chains
      (example_plan_state\<lparr>past_steps := [(''a'', ''x''), (''b'', ''y'')]\<rparr>) = Response ''ok''"
    by (simp add: example_plan_chains_def example_plan_state_def)
  have more: "replanner example_plan_chains ?s1 = Plan [''b'']"
    by (simp add: example_plan_chains_def example_plan_state_def)
  from replan_never_empty_plan
         [of example_plan_chains ?s1 "''ok''" "[''b'']" 3 example_plan_state ?s1 ?s2]
       run step more
  have a: "plan_execute_step example_plan_chains (''execute'', ?s2) \<noteq> Inl (IndexError ''plan[0]'')"
    and b: "replan_step example_plan_chains ?s1 = no_plan_update\<lparr>plan_upd := Some [''b'']\<rparr>"
    by blast+
  from replan_never_empty_plan
         [of example_plan_chains "example_plan_state\<lparr>past_steps := [(''a'', ''x''), (''b'', ''y'')]\<rparr>"
             "''ok''"]
       resp
  have c: "replan_step example_plan_chains
             (example_plan_state\<lparr>past_steps := [(''a'', ''x''), (''b'', ''y'')]\<rparr>)
           = no_plan_update\<lparr>response_upd := Some ''ok''\<rparr>"
    by blast
  from run step resp a b c show ?thesis by blast
qed

section \<open>Monitoring: when the function returns\<close>

lemma update_disabled: "disable pbar \<Longrightarrow> update k pbar = pbar"
  by (simp add: update_def)

lemma update_enabled:
  "\<not> disable pbar \<Longrightarrow> update k pbar = pbar\<lparr>bar_n := bar_n pbar + k\<rparr>"
  by (simp add: update_def)

lemma fill_enabled:
  "\<not> disable pbar \<Longrightarrow> bar_n pbar \<le> 3 \<Longrightarrow> fill pbar = Some (pbar\<lparr>bar_n := 3\<rparr>)"
proof (induction "nat (3 - bar_n pbar)" arbitrary: pbar)
  case 0
  then have "bar_n pbar = 3" by simp
  then show ?case by (subst fill.simps) simp
next
  case (Suc m)
  then have lt: "bar_n pbar < 3" by simp
  let ?p = "pbar\<lparr>bar_n := bar_n pbar + 1\<rparr>"
  have "fill ?p = Some (?p\<lparr>bar_n := 3\<rparr>)"
    using Suc.hyps(2) Suc.prems lt by (intro Suc.hyps(1)) simp_all
  then show ?case
    using lt Suc.prems(1) by (subst fill.simps) (simp add: update_enabled)
qed

lemma fill_disabled:
  assumes "disable pbar" and "bar_n pbar < 3"
  shows "fill pbar = None"
proof (rule ccontr)
  assume "fill pbar \<noteq> None"
  then obtain r where r: "fill pbar = Some r" by blast
  have "\<not> (disable pbar \<and> bar_n pbar < 3)"
  proof (rule fill.raw_induct [where P = "\<lambda>p q. \<not> (disable p \<and> bar_n p < 3)", OF _ r])
    fix f p q
    assume ih: "\<And>x y. f x = Some y \<Longrightarrow> \<not> (disable x \<and> bar_n x < 3)"
      and eq: "(if bar_n p < 3 then f (update 1 p) else Some p) = Some q"
    show "\<not> (disable p \<and> bar_n p < 3)"
    proof
      assume d: "disable p \<and> bar_n p < 3"
      with eq have "f p = Some q" by (simp add: update_disabled)
      from ih [OF this] d show False by blast
    qed
  qed
  with assms show False by blast
qed

lemma poll_terminal: "terminal status \<Longrightarrow> poll get k pbar status = Some (pbar, k)"
  by (subst poll.simps) (auto simp: terminal_def)

lemma poll_pending:
  "\<not> terminal status \<Longrightarrow>
   poll get k pbar status =
     poll get (k + 1) (if status = ''Running'' \<and> bar_n pbar < 2 then update 1 pbar else pbar) (get k)"
  by (subst poll.simps) (auto simp: terminal_def)

lemma poll_returns:
  assumes "\<forall>j<d. \<not> terminal (get (k + j))" and "terminal (get (k + d))"
    and "0 \<le> bar_n pbar" and "bar_n pbar \<le> 2"
  shows "\<exists>pbar'. poll get (k + 1) pbar (get k) = Some (pbar', k + d + 1) \<and>
           disable pbar' = disable pbar \<and> 0 \<le> bar_n pbar' \<and> bar_n pbar' \<le> 2"
  using assms
proof (induction d arbitrary: k pbar)
  case 0
  then show ?case by (simp add: poll_terminal)
next
  case (Suc d)
  from Suc.prems(1) have now: "\<not> terminal (get k)" by force
  let ?p = "if get k = ''Running'' \<and> bar_n pbar < 2 then update 1 pbar else pbar"
  have "\<forall>j<d. \<not> terminal (get (Suc k + j))"
    using Suc.prems(1) by (metis Suc_less_eq add_Suc_shift)
  moreover have "terminal (get (Suc k + d))" using Suc.prems(2) by simp
  moreover have "0 \<le> bar_n ?p" "bar_n ?p \<le> 2" using Suc.prems(3,4) by (auto simp: update_def)
  ultimately obtain pbar' where
    "poll get (Suc k + 1) ?p (get (Suc k)) = Some (pbar', Suc k + d + 1)"
    "disable pbar' = disable ?p" "0 \<le> bar_n pbar'" "bar_n pbar' \<le> 2"
    using Suc.IH [of "Suc k" ?p] by blast
  moreover have "disable ?p = disable pbar" by (simp add: update_def)
  ultimately show ?case
    using poll_pending [OF now, of get "k + 1" pbar] by simp
qed

lemma poll_first:
  assumes "\<exists>k. terminal (get k)"
  shows "\<exists>pbar'. poll get 1 (if get 0 = ''Queued'' then update 1 (tqdm_init d) else tqdm_init d) (get 0) =
             Some (pbar', (LEAST k. terminal (get k)) + 1) \<and>
           disable pbar' = d \<and> 0 \<le> bar_n pbar' \<and> bar_n pbar' \<le> 2"
proof -
  let ?d = "LEAST k. terminal (get k)"
  let ?p = "if get 0 = ''Queued'' then update 1 (tqdm_init d) else tqdm_init d"
  from assms have "terminal (get ?d)" by (metis LeastI)
  then have t0: "terminal (get (0 + ?d))" by simp
  have f: "\<forall>j<?d. \<not> terminal (get (0 + j))" by (auto dest: not_less_Least)
  have n1: "0 \<le> bar_n ?p" and n2: "bar_n ?p \<le> 2" and dis: "disable ?p = d"
    by (simp_all add: update_def tqdm_init_def)
  from poll_returns [OF f t0 n1 n2] obtain pbar' where
    "poll get (0 + 1) ?p (get 0) = Some (pbar', 0 + ?d + 1)" "disable pbar' = disable ?p"
    "0 \<le> bar_n pbar'" "bar_n pbar' \<le> 2"
    by blast
  with dis show ?thesis by simp
qed

lemma monitor_status_disabled:
  assumes "\<exists>k. terminal (get k)"
  shows "monitor_status True get = None"
proof -
  from poll_first [OF assms, of True] obtain pbar' where
    p: "poll get 1 (if get 0 = ''Queued'' then update 1 (tqdm_init True) else tqdm_init True) (get 0) =
             Some (pbar', (LEAST k. terminal (get k)) + 1)"
    and b: "disable pbar'" "bar_n pbar' \<le> 2"
    by blast
  from b have "fill pbar' = None" by (intro fill_disabled) simp_all
  with p show ?thesis by (simp add: monitor_status_def Let_def)
qed

text \<open>
  C10, as stated, fails: on a disabled progress bar \<open>update\<close> leaves \<open>pbar.n\<close> at 0, so
  after the polling loop has stopped at the first terminal status the final loop
  \<open>while pbar.n < 3\<close> never ends and the function does not return.
\<close>

theorem monitor_status_disabled_counterexample:
  "terminal (example_status 2) \<and> monitor_status True example_status = None"
proof -
  have t: "terminal (example_status 2)"
    by (simp add: terminal_def example_status_def)
  then have "\<exists>k. terminal (example_status k)" by blast
  from monitor_status_disabled [OF this] t show ?thesis by simp
qed

text \<open>
  C10, amended. With an enabled progress bar, \<open>monitor_status\<close> returns for every status
  sequence that eventually yields \<open>Completed\<close> or \<open>Failed\<close>: the polling loop stops at the
  first such status (the number of requests is its index plus one), \<open>pbar.n\<close> is then
  between 0 and 2, the final loop raises it, and it is exactly 3 at return, whatever
  statuses were seen before.
\<close>

theorem monitor_status_returns:
  assumes "\<exists>k. terminal (get k)"
  shows "monitor_status False get = Some (3, (LEAST k. terminal (get k)) + 1) \<and>
         (\<exists>pbar0. poll get 1 (if get 0 = ''Queued'' then update 1 (tqdm_init False)
                               else tqdm_init False) (get 0) =
                    Some (pbar0, (LEAST k. terminal (get k)) + 1) \<and>
                  0 \<le> bar_n pbar0 \<and> bar_n pbar0 < 3 \<and>
                  fill pbar0 = Some (pbar0\<lparr>bar_n := 3\<rparr>))"
proof -
  let ?d = "LEAST k. terminal (get k)"
  from poll_first [OF assms, of False] obtain pbar0 where
    p: "poll get 1 (if get 0 = ''Queued'' then update 1 (tqdm_init False) else tqdm_init False) (get 0) =
             Some (pbar0, ?d + 1)"
    and b: "\<not> disable pbar0" "0 \<le> bar_n pbar0" "bar_n pbar0 \<le> 2"
    by blast
  from b have fl: "fill pbar0 = Some (pbar0\<lparr>bar_n := 3\<rparr>)" by (intro fill_enabled) simp_all
  from p fl have m: "monitor_status False get = Some (3, ?d + 1)"
    by (simp add: monitor_status_def Let_def)
  from b have "0 \<le> bar_n pbar0 \<and> bar_n pbar0 < 3" by simp
  with p m fl show ?thesis by blast
qed

theorem monitor_status_returns_witness:
  "terminal (example_status 2) \<and> monitor_status False example_status = Some (3, 3)"
proof -
  have t: "terminal (example_status 2)"
    by (simp add: terminal_def example_status_def)
  then have "\<exists>k. terminal (example_status k)" by blast
  from monitor_status_returns [OF this]
  have m: "monitor_status False example_status =
             Some (3, (LEAST k. terminal (example_status k)) + 1)"
    by blast
  have "(LEAST k. terminal (example_status k)) = 2"
  proof (rule Least_equality)
    show "terminal (example_status 2)" by (rule t)
  next
    fix y assume "terminal (example_status y)"
    then have "y \<noteq> 0 \<and> y \<noteq> 1"
      by (auto simp: terminal_def example_status_def split: if_splits)
    then show "2 \<le> y" by arith
  qed
  with m t show ?thesis by simp
qed

end
